theory Spec2Isabelle
  imports Complex_Main "HOL-Library.AList" "HOL-Library.Sublist"
begin

section \<open>Data model\<close>

text \<open>
  The moderation bot keeps three dictionaries in its \<open>DataManager\<close> (settings, users,
  stats), talks to a remote classifier and to the chat platform, and writes a log.
  Python's unbounded integers are \<open>int\<close>. Python's floats are modelled by \<open>real\<close>: the
  scorer's arithmetic is exact here. Rounding is not modelled (in floating point
  \<open>(1.01 - 0.7) * 100\<close> lies slightly above 31), and neither are the non-finite
  floats (NaN, Infinity).
  The literal texts of the source are Russian; where a text matters it is a constructor
  of a datatype or an English stand-in.
\<close>

subsection \<open>JSON values and Python dictionaries\<close>

datatype json =
    JNull
  | JBool bool
  | JNum real
  | JStr string
  | JArr "json list"
  | JObj "(string \<times> json) list"

text \<open>A Python \<open>dict\<close> with string keys: an association list read with \<open>map_of\<close>
  and written with \<open>AList.update\<close> (in place when the key is present, appended otherwise).\<close>

type_synonym pydict = "(string \<times> json) list"

datatype key = Field string | UserId int

text \<open>The platform call that raised.\<close>

datatype tg_call = SendCall | DeleteCall | EditCall | BanCall | AnnounceCall | ReplyCall

datatype exn =
    ValueError
  | KeyError key
  | TypeError
  | AttributeError
  | JSONDecodeError
  | APIError
  | TelegramError tg_call

text \<open>\<open>d[k]\<close>: raises \<open>KeyError\<close> on a missing key.\<close>

definition getitem :: "pydict \<Rightarrow> string \<Rightarrow> exn + json" where
  "getitem d k = (case map_of d k of None \<Rightarrow> Inl (KeyError (Field k)) | Some v \<Rightarrow> Inr v)"

text \<open>The operand of \<open>x / 100\<close>: Python divides numbers and booleans (\<open>True\<close> is 1),
  and raises \<open>TypeError\<close> on every other JSON value.\<close>

definition num_of :: "json \<Rightarrow> exn + real" where
  "num_of v =
     (case v of
        JNum x \<Rightarrow> Inr x
      | JBool b \<Rightarrow> Inr (if b then 1 else 0)
      | _ \<Rightarrow> Inl TypeError)"

text \<open>Python's truth value of a JSON value (\<open>if violation['violation']:\<close>).\<close>

definition truthy :: "json \<Rightarrow> bool" where
  "truthy v =
     (case v of
        JNull \<Rightarrow> False
      | JBool b \<Rightarrow> b
      | JNum x \<Rightarrow> x \<noteq> 0
      | JStr s \<Rightarrow> s \<noteq> []
      | JArr xs \<Rightarrow> xs \<noteq> []
      | JObj kvs \<Rightarrow> kvs \<noteq> [])"

subsection \<open>The DataManager's store\<close>

record settings_rec =
  sensitivity :: int
  ban_words :: "string list"
  auto_delete :: bool
  warn_before_ban :: int

record user_record =
  username :: "string option"
  first_name :: string
  last_name :: "string option"
  warnings :: int
  messages :: int

record stats_rec =
  messages_checked :: int
  violations_found :: int
  deleted_messages :: int
  banned_users :: int

subsection \<open>The chat platform's objects\<close>

record tg_user =
  user_id :: int
  is_bot :: bool
  tg_username :: "string option"
  tg_first_name :: string
  tg_last_name :: "string option"

record tg_message =
  msg_text :: "string option"
  from_user :: "tg_user option"
  chat_id :: int
  message_id :: int

record tg_update =
  message :: "tg_message option"

subsection \<open>Effects\<close>

text \<open>
  Every call that leaves the process is recorded, in order, in the state's \<open>trace\<close>:
  the log, the classifier request, the platform calls and the write of the data file.
  Message texts are kept structured (the fields the f-strings interpolate) instead of
  formatted.
\<close>

datatype sent_text =
    WarningText json json json json json int int
  | DeleteFailedNote sent_text
  | BanAnnouncement "string option"
  | ProcessingErrorNotice

datatype log_level = Debug | Info | Error

datatype log_msg =
    AnalyzingMessage int
  | AnalysisError exn
  | NewMessage int int
  | IgnoringBot
  | HandleMessageError exn
  | DeleteFailed exn
  | BanFailed int exn
  | SaveFailed

datatype event =
    Log log_level log_msg
  | ClassifierCall string
  | SendMessage int sent_text "int option"
  | DeleteMessage int int
  | EditText int sent_text
  | BanChatMember int int
  | ReplyText int int sent_text
  | SaveData

text \<open>What the world answers while one update is handled: the classifier's response
  and whether each platform call (and the file write) succeeds.\<close>

datatype classifier_outcome = CallFails | ParseFails | Parsed json

record env =
  classifier :: classifier_outcome
  send_warning_ok :: bool
  delete_ok :: bool
  edit_ok :: bool
  ban_ok :: bool
  announce_ok :: bool
  reply_ok :: bool
  save_ok :: bool

text \<open>The shared state: the DataManager's three dictionaries (users keyed by the user
  id, whose \<open>str\<close> is injective), whether the analyzer was given the DataManager
  (\<open>set_data_manager\<close>), and the trace.\<close>

record bot_state =
  settings :: settings_rec
  users :: "int \<rightharpoonup> user_record"
  stats :: stats_rec
  analyzer_dm :: bool
  trace :: "event list"

definition emit :: "event \<Rightarrow> bot_state \<Rightarrow> bot_state" where
  "emit e st = st\<lparr>trace := trace st @ [e]\<rparr>"

text \<open>Sequencing of two steps that may raise: the second runs only if the first returned.\<close>

definition and_then ::
  "(exn + 'a) \<times> bot_state \<Rightarrow> ('a \<Rightarrow> bot_state \<Rightarrow> (exn + 'b) \<times> bot_state) \<Rightarrow> (exn + 'b) \<times> bot_state" where
  "and_then m f = (case m of (Inl e, st) \<Rightarrow> (Inl e, st) | (Inr v, st) \<Rightarrow> f v st)"

text \<open>The same for a computation without effects.\<close>

definition bind_exn :: "exn + 'a \<Rightarrow> ('a \<Rightarrow> exn + 'b) \<Rightarrow> exn + 'b" where
  "bind_exn m f = (case m of Inl e \<Rightarrow> Inl e | Inr v \<Rightarrow> f v)"

section \<open>services/analyzer.py\<close>

text \<open>\<open>OpenAIAnalyzer._calculate_violation_score\<close>.\<close>

definition calculate_violation_score :: "real \<Rightarrow> real \<Rightarrow> real \<Rightarrow> real" where
  "calculate_violation_score spam toxic danger =
     (let spam_norm = min (max (spam / 100) 0) 1;
          toxic_norm = min (max (toxic / 100) 0) 1;
          danger_norm = min (max (danger / 100) 0) 1;
          base_score = max (max toxic_norm danger_norm) spam_norm;
          additional_impact = 0.5 * (toxic_norm + danger_norm + spam_norm - base_score)
      in min (base_score + additional_impact) 1.0 * 100)"

text \<open>The threshold of \<open>analyze_message\<close>:
  \<open>(1.01 - self.data_manager.settings['sensitivity']/100) * 100\<close>.\<close>

definition sensitivity_threshold :: "int \<Rightarrow> real" where
  "sensitivity_threshold s = (1.01 - real_of_int s / 100) * 100"

text \<open>The statements of \<open>analyze_message\<close> after \<open>json.loads\<close> returned \<open>parsed\<close>:
  subscripting anything but a dict raises, a missing sub-score raises \<open>KeyError\<close>, a
  non-numeric one \<open>TypeError\<close>; then both derived fields are assigned.\<close>

definition score_response :: "settings_rec \<Rightarrow> json \<Rightarrow> exn + pydict" where
  "score_response cfg parsed =
     (case parsed of
        JObj result \<Rightarrow>
          bind_exn (getitem result ''spam'') (\<lambda>spam.
          bind_exn (getitem result ''toxic'') (\<lambda>toxic.
          bind_exn (getitem result ''danger'') (\<lambda>danger.
          bind_exn (num_of spam) (\<lambda>s.
          bind_exn (num_of toxic) (\<lambda>t.
          bind_exn (num_of danger) (\<lambda>d.
            (let violation_score = calculate_violation_score s t d;
                 result1 = AList.update ''violation_score'' (JNum violation_score) result;
                 threshold = sensitivity_threshold (sensitivity cfg);
                 result2 = AList.update ''violation'' (JBool (violation_score \<ge> threshold)) result1
             in Inr result2)))))))
      | _ \<Rightarrow> Inl TypeError)"

text \<open>The body of the \<open>try\<close> statement of \<open>analyze_message\<close>.\<close>

definition analyze_message_try :: "env \<Rightarrow> string \<Rightarrow> bot_state \<Rightarrow> (exn + pydict) \<times> bot_state" where
  "analyze_message_try e message_text st =
     (let st1 = emit (Log Info (AnalyzingMessage (sensitivity (settings st)))) st;
          st2 = emit (ClassifierCall message_text) st1
      in (case classifier e of
            CallFails \<Rightarrow> (Inl APIError, st2)
          | ParseFails \<Rightarrow> (Inl JSONDecodeError, st2)
          | Parsed parsed \<Rightarrow> (score_response (settings st2) parsed, st2)))"

text \<open>The dictionary returned by the \<open>except\<close> clause (reason: "Oshibka analiza",
  analysis error).\<close>

definition analysis_error_result :: pydict where
  "analysis_error_result =
     [(''spam'', JNum 0), (''toxic'', JNum 0), (''danger'', JNum 0),
      (''violation_score'', JNum 0), (''violation'', JBool False),
      (''reason'', JStr ''analysis error'')]"

text \<open>\<open>OpenAIAnalyzer.analyze_message\<close>: the check of the DataManager stands before the
  \<open>try\<close>; every exception of the body is logged and answered with the default.\<close>

definition analyze_message :: "env \<Rightarrow> string \<Rightarrow> bot_state \<Rightarrow> (exn + pydict) \<times> bot_state" where
  "analyze_message e message_text st =
     (if \<not> analyzer_dm st then (Inl ValueError, st)
      else (case analyze_message_try e message_text st of
              (Inr result, st') \<Rightarrow> (Inr result, st')
            | (Inl ex, st') \<Rightarrow> (Inr analysis_error_result, emit (Log Error (AnalysisError ex)) st')))"

section \<open>bot/handlers.py\<close>

subsection \<open>The rule filter\<close>

text \<open>\<open>str.lower\<close>, on the ASCII letters (the characters of \<open>string\<close> are bytes; the
  case mapping of the other code points is not modelled).\<close>

definition lower_char :: "char \<Rightarrow> char" where
  "lower_char c =
     (let n = (of_char c :: nat) in if 65 \<le> n \<and> n \<le> 90 then char_of (n + 32) else c)"

definition lower :: "string \<Rightarrow> string" where
  "lower s = map lower_char s"

text \<open>Python's \<open>w in t\<close> on strings: \<open>w\<close> starts at some position of \<open>t\<close>.\<close>

fun str_in :: "string \<Rightarrow> string \<Rightarrow> bool" where
  "str_in w [] = (w = [])"
| "str_in w (c # t) = (prefix w (c # t) \<or> str_in w t)"

text \<open>\<open>Handlers._check_ban_words\<close>:
  \<open>any(word in text.lower() for word in self.data_manager.settings['ban_words'])\<close>.\<close>

definition check_ban_words :: "string \<Rightarrow> bot_state \<Rightarrow> bool" where
  "check_ban_words txt st = list_ex (\<lambda>word. str_in word (lower txt)) (ban_words (settings st))"

text \<open>\<open>Handlers._create_ban_word_violation\<close> (reason: "Zapreshchennoe slovo", banned word).\<close>

definition create_ban_word_violation :: pydict where
  "create_ban_word_violation =
     [(''spam'', JNum 90), (''toxic'', JNum 40), (''danger'', JNum 70),
      (''violation_score'', JNum 90), (''violation'', JBool True),
      (''reason'', JStr ''banned word'')]"

subsection \<open>User records\<close>

text \<open>\<open>Handlers._init_user_data\<close>.\<close>

definition init_user_data :: "tg_user \<Rightarrow> bot_state \<Rightarrow> bot_state" where
  "init_user_data user st =
     st\<lparr>users := (users st)(user_id user \<mapsto>
        \<lparr>username = tg_username user, first_name = tg_first_name user,
         last_name = tg_last_name user, warnings = 0, messages = 0\<rparr>)\<rparr>"

text \<open>\<open>Handlers._update_user_stats\<close>: \<open>users[user_id]['messages'] += 1\<close>.\<close>

definition update_user_stats :: "int \<Rightarrow> bot_state \<Rightarrow> (exn + unit) \<times> bot_state" where
  "update_user_stats uid st =
     (case users st uid of
        None \<Rightarrow> (Inl (KeyError (UserId uid)), st)
      | Some r \<Rightarrow> (Inr (), st\<lparr>users := (users st)(uid \<mapsto> r\<lparr>messages := messages r + 1\<rparr>)\<rparr>))"

subsection \<open>The enforcement engine\<close>

text \<open>The f-string of \<open>Handlers._send_warning\<close>: its interpolations in their order.\<close>

definition warning_text :: "tg_user \<Rightarrow> pydict \<Rightarrow> bot_state \<Rightarrow> exn + sent_text" where
  "warning_text user violation st =
     bind_exn (getitem violation ''reason'') (\<lambda>reason.
     bind_exn (getitem violation ''violation_score'') (\<lambda>score.
     bind_exn (getitem violation ''spam'') (\<lambda>spam.
     bind_exn (getitem violation ''toxic'') (\<lambda>toxic.
     bind_exn (getitem violation ''danger'') (\<lambda>danger.
       (case users st (user_id user) of
          None \<Rightarrow> Inl (KeyError (UserId (user_id user)))
        | Some r \<Rightarrow>
            Inr (WarningText reason score spam toxic danger
                   (warnings r) (warn_before_ban (settings st)))))))))"

text \<open>\<open>Handlers._send_warning\<close>: the sent message is returned (here: its text).\<close>

definition send_warning ::
  "env \<Rightarrow> tg_message \<Rightarrow> tg_user \<Rightarrow> pydict \<Rightarrow> bot_state \<Rightarrow> (exn + sent_text) \<times> bot_state" where
  "send_warning e msg user violation st =
     (case warning_text user violation st of
        Inl ex \<Rightarrow> (Inl ex, st)
      | Inr wt \<Rightarrow>
          (let st1 = emit (SendMessage (chat_id msg) wt (Some (message_id msg))) st
           in if send_warning_ok e then (Inr wt, st1) else (Inl (TelegramError SendCall), st1)))"

text \<open>\<open>Handlers._delete_violation_message\<close>: the \<open>except\<close> clause logs and edits the
  warning; the edit is not guarded.\<close>

definition delete_violation_message ::
  "env \<Rightarrow> tg_message \<Rightarrow> sent_text \<Rightarrow> bot_state \<Rightarrow> (exn + unit) \<times> bot_state" where
  "delete_violation_message e msg warning_msg st =
     (let st1 = emit (DeleteMessage (chat_id msg) (message_id msg)) st
      in if delete_ok e
         then (Inr (), st1\<lparr>stats := (stats st1)\<lparr>deleted_messages := deleted_messages (stats st1) + 1\<rparr>\<rparr>)
         else
           (let st2 = emit (Log Error (DeleteFailed (TelegramError DeleteCall))) st1;
                st3 = emit (EditText (chat_id msg) (DeleteFailedNote warning_msg)) st2
            in if edit_ok e then (Inr (), st3) else (Inl (TelegramError EditCall), st3)))"

text \<open>\<open>Handlers._ban_user\<close>: the \<open>except\<close> clause logs and re-raises.\<close>

definition ban_user ::
  "env \<Rightarrow> tg_message \<Rightarrow> tg_user \<Rightarrow> pydict \<Rightarrow> bot_state \<Rightarrow> (exn + unit) \<times> bot_state" where
  "ban_user e msg user violation st =
     (let st1 = emit (BanChatMember (chat_id msg) (user_id user)) st
      in if \<not> ban_ok e
         then (Inl (TelegramError BanCall),
               emit (Log Error (BanFailed (user_id user) (TelegramError BanCall))) st1)
         else
           (let st2 = st1\<lparr>stats := (stats st1)\<lparr>banned_users := banned_users (stats st1) + 1\<rparr>\<rparr>;
                st3 = emit (SendMessage (chat_id msg) (BanAnnouncement (tg_username user)) None) st2
            in if announce_ok e then (Inr (), st3)
               else (Inl (TelegramError AnnounceCall),
                     emit (Log Error (BanFailed (user_id user) (TelegramError AnnounceCall))) st3)))"

text \<open>\<open>Handlers._process_violation\<close>.\<close>

definition process_violation ::
  "env \<Rightarrow> tg_message \<Rightarrow> tg_user \<Rightarrow> pydict \<Rightarrow> bot_state \<Rightarrow> (exn + unit) \<times> bot_state" where
  "process_violation e msg user violation st =
     (let st1 = st\<lparr>stats := (stats st)\<lparr>violations_found := violations_found (stats st) + 1\<rparr>\<rparr>;
          uid = user_id user
      in (case users st1 uid of
            None \<Rightarrow> (Inl (KeyError (UserId uid)), st1)
          | Some r \<Rightarrow>
              (let st2 = st1\<lparr>users := (users st1)(uid \<mapsto> r\<lparr>warnings := warnings r + 1\<rparr>)\<rparr>
               in and_then (send_warning e msg user violation st2) (\<lambda>warning_msg st3.
                  and_then (if auto_delete (settings st3)
                            then delete_violation_message e msg warning_msg st3
                            else (Inr (), st3)) (\<lambda>_ st4.
                    (case users st4 uid of
                       None \<Rightarrow> (Inl (KeyError (UserId uid)), st4)
                     | Some r' \<Rightarrow>
                         if warnings r' \<ge> warn_before_ban (settings st4)
                         then ban_user e msg user violation st4
                         else (Inr (), st4)))))))"

subsection \<open>The orchestrator\<close>

text \<open>\<open>DataManager.save_data\<close>: an \<open>IOError\<close> is logged, never raised.\<close>

definition save_data :: "env \<Rightarrow> bot_state \<Rightarrow> bot_state" where
  "save_data e st =
     (let st1 = emit SaveData st in if save_ok e then st1 else emit (Log Error SaveFailed) st1)"

text \<open>\<open>Handlers.handle_message\<close>, the \<open>try\<close> body from \<open>logger.info\<close> on, for a message
  with text \<open>txt\<close> of sender \<open>user\<close>.\<close>

definition handle_message_from ::
  "env \<Rightarrow> tg_message \<Rightarrow> string \<Rightarrow> tg_user \<Rightarrow> bot_state \<Rightarrow> (exn + unit) \<times> bot_state" where
  "handle_message_from e msg txt user st =
     (let st1 = emit (Log Info (NewMessage (user_id user) (chat_id msg))) st
      in if is_bot user then (Inr (), emit (Log Debug IgnoringBot) st1)
         else
           (let uid = user_id user;
                st2 = (if users st1 uid = None then init_user_data user st1 else st1)
            in and_then (update_user_stats uid st2) (\<lambda>_ st3.
               (let st4 = st3\<lparr>stats := (stats st3)\<lparr>messages_checked := messages_checked (stats st3) + 1\<rparr>\<rparr>;
                    ban_word_violation = check_ban_words txt st4
                in and_then (if ban_word_violation then (Inr create_ban_word_violation, st4)
                             else analyze_message e txt st4) (\<lambda>violation st5.
                   and_then (getitem violation ''violation'', st5) (\<lambda>v st6.
                   and_then (if truthy v then process_violation e msg user violation st6
                             else (Inr (), st6)) (\<lambda>_ st7.
                     (Inr (), save_data e st7))))))))"

text \<open>The \<open>try\<close> body of \<open>handle_message\<close>: the guard on the update, then the sender
  (\<open>user.id\<close> raises when the message has none).\<close>

definition handle_message_try :: "env \<Rightarrow> tg_update \<Rightarrow> bot_state \<Rightarrow> (exn + unit) \<times> bot_state" where
  "handle_message_try e upd st =
     (case message upd of
        None \<Rightarrow> (Inr (), st)
      | Some msg \<Rightarrow>
          (case msg_text msg of
             None \<Rightarrow> (Inr (), st)
           | Some txt \<Rightarrow>
               if txt = [] then (Inr (), st)
               else (case from_user msg of
                       None \<Rightarrow> (Inl AttributeError, st)
                     | Some user \<Rightarrow> handle_message_from e msg txt user st)))"

text \<open>\<open>Handlers.handle_message\<close>: the \<open>except\<close> clause logs and replies to the message;
  the reply is not guarded.\<close>

definition handle_message :: "env \<Rightarrow> tg_update \<Rightarrow> bot_state \<Rightarrow> (exn + unit) \<times> bot_state" where
  "handle_message e upd st =
     (case handle_message_try e upd st of
        (Inr u, st') \<Rightarrow> (Inr u, st')
      | (Inl ex, st') \<Rightarrow>
          (let st1 = emit (Log Error (HandleMessageError ex)) st'
           in (case message upd of
                 None \<Rightarrow> (Inr (), st1)
               | Some msg \<Rightarrow>
                   (let st2 = emit (ReplyText (chat_id msg) (message_id msg) ProcessingErrorNotice) st1
                    in if reply_ok e then (Inr (), st2) else (Inl (TelegramError ReplyCall), st2)))))"

text \<open>Handling a sequence of updates, each with what the world answers to it; an
  exception that leaves \<open>handle_message\<close> goes to the framework and the next update is
  handled in the state reached.\<close>

fun handle_messages :: "(env \<times> tg_update) list \<Rightarrow> bot_state \<Rightarrow> bot_state" where
  "handle_messages [] st = st"
| "handle_messages ((e, upd) # rest) st = handle_messages rest (snd (handle_message e upd st))"

section \<open>The specification's formulas\<close>

text \<open>The numeric value of a sub-score of a result, as the scorer's division reads it.\<close>

definition sub_score :: "pydict \<Rightarrow> string \<Rightarrow> exn + real" where
  "sub_score d k = bind_exn (getitem d k) num_of"





text \<open>A result whose \<open>violation_score\<close> is the scorer's value of its own sub-scores.\<close>

definition rescored :: "pydict \<Rightarrow> bool" where
  "rescored r =
     (case (sub_score r ''spam'', sub_score r ''toxic'', sub_score r ''danger'') of
        (Inr s, Inr t, Inr d) \<Rightarrow>
          getitem r ''violation_score'' = Inr (JNum (calculate_violation_score s t d))
      | _ \<Rightarrow> False)"


section \<open>Notions used in the statements\<close>

text \<open>The events that a step from \<open>st\<close> to \<open>st'\<close> added to the trace.\<close>

definition new_events :: "bot_state \<Rightarrow> bot_state \<Rightarrow> event list" where
  "new_events st st' = drop (length (trace st)) (trace st')"


text \<open>The store after \<open>handle_message\<close> has registered the sender (if new) and counted
  the message.\<close>

definition count_message :: "tg_user \<Rightarrow> bot_state \<Rightarrow> bot_state" where
  "count_message user st =
     (let r = (case users st (user_id user) of
                 None \<Rightarrow> \<lparr>username = tg_username user, first_name = tg_first_name user,
                           last_name = tg_last_name user, warnings = 0, messages = 0\<rparr>
               | Some r \<Rightarrow> r)
      in st\<lparr>users := (users st)(user_id user \<mapsto> r\<lparr>messages := messages r + 1\<rparr>),
            stats := (stats st)\<lparr>messages_checked := messages_checked (stats st) + 1\<rparr>\<rparr>)"

section \<open>Example inputs\<close>

definition example_settings :: settings_rec where
  "example_settings =
     \<lparr>sensitivity = 50, ban_words = [''spam''], auto_delete = True, warn_before_ban = 2\<rparr>"

definition example_state :: bot_state where
  "example_state =
     \<lparr>settings = example_settings, users = Map.empty,
      stats = \<lparr>messages_checked = 0, violations_found = 0, deleted_messages = 0, banned_users = 0\<rparr>,
      analyzer_dm = True, trace = []\<rparr>"

text \<open>A world in which every platform call succeeds and the classifier answers \<open>c\<close>.\<close>

definition calm_env :: "classifier_outcome \<Rightarrow> env" where
  "calm_env c =
     \<lparr>classifier = c, send_warning_ok = True, delete_ok = True, edit_ok = True, ban_ok = True,
      announce_ok = True, reply_ok = True, save_ok = True\<rparr>"


definition send_fails :: env where
  "send_fails = (calm_env CallFails)\<lparr>send_warning_ok := False\<rparr>"

definition delete_fails :: env where
  "delete_fails = (calm_env CallFails)\<lparr>delete_ok := False\<rparr>"

definition delete_and_edit_fail :: env where
  "delete_and_edit_fail = (calm_env CallFails)\<lparr>delete_ok := False, edit_ok := False\<rparr>"

text \<open>A classifier response that brings its own \<open>violation_score\<close> and \<open>violation\<close>.\<close>

definition example_response :: pydict where
  "example_response =
     [(''spam'', JNum 10), (''toxic'', JNum 20), (''danger'', JNum 5),
      (''violation_score'', JNum 99), (''violation'', JBool True), (''reason'', JStr ''rude'')]"

text \<open>The same response without the two fields the classifier is not trusted with.\<close>

definition bare_response :: pydict where
  "bare_response =
     [(''spam'', JNum 10), (''toxic'', JNum 20), (''danger'', JNum 5), (''reason'', JStr ''rude'')]"

text \<open>A classifier response that scores 100.\<close>

definition loud_response :: pydict where
  "loud_response =
     [(''spam'', JNum 95), (''toxic'', JNum 0), (''danger'', JNum 50), (''reason'', JStr ''advert'')]"

definition example_user :: tg_user where
  "example_user =
     \<lparr>user_id = 7, is_bot = False, tg_username = Some ''u1'', tg_first_name = ''U'',
      tg_last_name = None\<rparr>"

definition example_message :: "string \<Rightarrow> tg_message" where
  "example_message txt =
     \<lparr>msg_text = Some txt, from_user = Some example_user, chat_id = 100, message_id = 5\<rparr>"

text \<open>The example state after the user 7 has been warned once.\<close>

definition warned_state :: bot_state where
  "warned_state =
     example_state\<lparr>users := [7 \<mapsto> \<lparr>username = Some ''u1'', first_name = ''U'', last_name = None,
                                      warnings = 1, messages = 1\<rparr>]\<rparr>"

text \<open>The scenario of the specification: two ban-word messages of the same new user,
  with \<open>warn_before_ban = 2\<close> and a world without failures.\<close>

definition spam_updates :: "(env \<times> tg_update) list" where
  "spam_updates =
     [(calm_env CallFails, \<lparr>message = Some (example_message ''this is spam'')\<rparr>),
      (calm_env CallFails, \<lparr>message = Some (example_message ''Spam again'')\<rparr>)]"




text \<open>A classifier response that scores 100 and gives no reason.\<close>

definition no_reason_response :: pydict where
  "no_reason_response = [(''spam'', JNum 95), (''toxic'', JNum 0), (''danger'', JNum 50)]"

section \<open>Basic facts\<close>

lemma emit_fields:
  "settings (emit ev st) = settings st"
  "users (emit ev st) = users st"
  "stats (emit ev st) = stats st"
  "analyzer_dm (emit ev st) = analyzer_dm st"
  "trace (emit ev st) = trace st @ [ev]"
  by (simp_all add: emit_def)

lemma getitem_update:
  "getitem (AList.update k v d) k' = (if k' = k then Inr v else getitem d k')"
  by (simp add: getitem_def update_conv')

lemma sub_score_update:
  "k' \<noteq> k \<Longrightarrow> sub_score (AList.update k v d) k' = sub_score d k'"
  by (simp add: sub_score_def getitem_update)

section \<open>The Violation Scorer\<close>




lemma threshold_closed: "sensitivity_threshold s = 101 - real_of_int s"
  by (simp add: sensitivity_threshold_def algebra_simps)

lemma score_response_ok:
  assumes "sub_score result ''spam'' = Inr spam"
    and "sub_score result ''toxic'' = Inr toxic"
    and "sub_score result ''danger'' = Inr danger"
  shows "score_response cfg (JObj result) =
    Inr (AList.update ''violation''
          (JBool (calculate_violation_score spam toxic danger \<ge> sensitivity_threshold (sensitivity cfg)))
          (AList.update ''violation_score'' (JNum (calculate_violation_score spam toxic danger)) result))"
  using assms
  by (auto simp: score_response_def sub_score_def bind_exn_def Let_def split: sum.splits)

lemma analyze_message_parsed:
  assumes "analyzer_dm st" and "classifier e = Parsed parsed"
    and "score_response (settings st) parsed = Inr r"
  shows "fst (analyze_message e txt st) = Inr r"
  using assms
  by (simp add: analyze_message_def analyze_message_try_def Let_def emit_fields)





section \<open>Monotonicity in the sensitivity\<close>

lemma threshold_antimono: "s1 \<le> s2 \<Longrightarrow> sensitivity_threshold s2 \<le> sensitivity_threshold s1"
  by (simp add: threshold_closed)

lemma analyze_message_cases:
  assumes "fst (analyze_message e txt st) = Inr r"
  shows "r = analysis_error_result
       \<or> (\<exists>parsed. classifier e = Parsed parsed \<and> score_response (settings st) parsed = Inr r)"
  using assms
  by (auto simp: analyze_message_def analyze_message_try_def Let_def emit_fields
      split: if_splits classifier_outcome.splits sum.splits)

lemma score_response_cases:
  assumes "score_response cfg parsed = Inr r"
  shows "\<exists>result s t d. parsed = JObj result
       \<and> sub_score result ''spam'' = Inr s \<and> sub_score result ''toxic'' = Inr t
       \<and> sub_score result ''danger'' = Inr d
       \<and> r = AList.update ''violation''
          (JBool (calculate_violation_score s t d \<ge> sensitivity_threshold (sensitivity cfg)))
          (AList.update ''violation_score'' (JNum (calculate_violation_score s t d)) result)"
  using assms
  by (auto simp: score_response_def sub_score_def bind_exn_def Let_def split: json.splits sum.splits)

text \<open>
  C7. With the sub-scores fixed, raising the sensitivity never turns a violation into a
  non-violation: for \<open>s1 \<le> s2\<close>, a score that reaches the threshold of \<open>s1\<close> reaches
  the threshold of \<open>s2\<close>, and if \<open>analyze_message\<close> returns a result with
  \<open>violation = True\<close> at sensitivity \<open>s1\<close>, then for the same classifier response it
  returns one with \<open>violation = True\<close> at sensitivity \<open>s2\<close>.
\<close>

theorem sensitivity_monotone:
  assumes "s1 \<le> s2"
    and "fst (analyze_message e txt (st\<lparr>settings := (settings st)\<lparr>sensitivity := s1\<rparr>\<rparr>)) = Inr r1"
    and "getitem r1 ''violation'' = Inr (JBool True)"
  shows "(calculate_violation_score spam toxic danger \<ge> sensitivity_threshold s1
            \<longrightarrow> calculate_violation_score spam toxic danger \<ge> sensitivity_threshold s2)
       \<and> (\<exists>r2. fst (analyze_message e txt (st\<lparr>settings := (settings st)\<lparr>sensitivity := s2\<rparr>\<rparr>)) = Inr r2
              \<and> getitem r2 ''violation'' = Inr (JBool True))"
proof -
  let ?cfg1 = "(settings st)\<lparr>sensitivity := s1\<rparr>" and ?cfg2 = "(settings st)\<lparr>sensitivity := s2\<rparr>"
  have mono: "sensitivity_threshold s2 \<le> sensitivity_threshold s1"
    using assms(1) by (rule threshold_antimono)
  have dm: "analyzer_dm st"
    using assms(2) by (auto simp: analyze_message_def split: if_splits)
  have "r1 \<noteq> analysis_error_result"
    using assms(3) by (auto simp: analysis_error_result_def getitem_def)
  with analyze_message_cases [OF assms(2)]
  obtain parsed where cl: "classifier e = Parsed parsed"
    and sr: "score_response ?cfg1 parsed = Inr r1"
    by auto
  from score_response_cases [OF sr] obtain result s t d where
    p: "parsed = JObj result" and
    sub: "sub_score result ''spam'' = Inr s" "sub_score result ''toxic'' = Inr t"
         "sub_score result ''danger'' = Inr d" and
    r1: "r1 = AList.update ''violation''
          (JBool (calculate_violation_score s t d \<ge> sensitivity_threshold (sensitivity ?cfg1)))
          (AList.update ''violation_score'' (JNum (calculate_violation_score s t d)) result)"
    by blast
  have v1: "calculate_violation_score s t d \<ge> sensitivity_threshold s1"
    using assms(3) by (simp add: r1 getitem_update)
  let ?r2 = "AList.update ''violation''
          (JBool (calculate_violation_score s t d \<ge> sensitivity_threshold (sensitivity ?cfg2)))
          (AList.update ''violation_score'' (JNum (calculate_violation_score s t d)) result)"
  have "score_response ?cfg2 parsed = Inr ?r2"
    unfolding p using sub by (rule score_response_ok)
  then have "fst (analyze_message e txt (st\<lparr>settings := ?cfg2\<rparr>)) = Inr ?r2"
    using dm cl by (simp add: analyze_message_parsed)
  moreover have "getitem ?r2 ''violation'' = Inr (JBool True)"
    using v1 mono by (simp add: getitem_update)
  ultimately show ?thesis
    using mono by auto
qed

lemma loud_sub_scores:
  "sub_score loud_response ''spam'' = Inr 95"
  "sub_score loud_response ''toxic'' = Inr 0"
  "sub_score loud_response ''danger'' = Inr 50"
  by (simp_all add: sub_score_def loud_response_def getitem_def bind_exn_def num_of_def)

lemma loud_score: "calculate_violation_score 95 0 50 = 100"
  by (simp add: calculate_violation_score_def)

lemma loud_analysis:
  "fst (analyze_message (calm_env (Parsed (JObj loud_response))) txt
          (example_state\<lparr>settings := (settings example_state)\<lparr>sensitivity := s\<rparr>\<rparr>)) =
   Inr (AList.update ''violation'' (JBool (100 \<ge> sensitivity_threshold s))
         (AList.update ''violation_score'' (JNum 100) loud_response))"
proof -
  have "score_response ((settings example_state)\<lparr>sensitivity := s\<rparr>) (JObj loud_response) =
      Inr (AList.update ''violation'' (JBool (100 \<ge> sensitivity_threshold s))
         (AList.update ''violation_score'' (JNum 100) loud_response))"
    using score_response_ok [OF loud_sub_scores, of "(settings example_state)\<lparr>sensitivity := s\<rparr>"]
    by (simp add: loud_score)
  then show ?thesis
    by (intro analyze_message_parsed) (simp_all add: example_state_def calm_env_def)
qed

theorem sensitivity_monotone_witness:
  "(1::int) \<le> 100
   \<and> calculate_violation_score 95 0 50 \<ge> sensitivity_threshold 100
   \<and> (\<exists>r2. fst (analyze_message (calm_env (Parsed (JObj loud_response))) ''buy now''
                 (example_state\<lparr>settings := (settings example_state)\<lparr>sensitivity := 100\<rparr>\<rparr>)) = Inr r2
           \<and> getitem r2 ''violation'' = Inr (JBool True))"
proof -
  have le: "(1::int) \<le> 100"
    by simp
  have v1: "getitem (AList.update ''violation'' (JBool (100 \<ge> sensitivity_threshold 1))
         (AList.update ''violation_score'' (JNum 100) loud_response)) ''violation'' = Inr (JBool True)"
    by (simp add: getitem_update threshold_closed)
  show ?thesis
    using sensitivity_monotone [OF le loud_analysis v1, of 95 0 50]
    by (simp add: loud_score threshold_closed)
qed

section \<open>Fail-open analysis\<close>

lemma analyze_message_trace:
  assumes "analyzer_dm st"
  shows "snd (analyze_message e txt st) =
     (case fst (analyze_message_try e txt st) of
        Inr r \<Rightarrow> st\<lparr>trace := trace st @ [Log Info (AnalyzingMessage (sensitivity (settings st))),
                                        ClassifierCall txt]\<rparr>
      | Inl ex \<Rightarrow> st\<lparr>trace := trace st @ [Log Info (AnalyzingMessage (sensitivity (settings st))),
                                        ClassifierCall txt, Log Error (AnalysisError ex)]\<rparr>)"
  using assms
  by (simp add: analyze_message_def analyze_message_try_def Let_def emit_def
      split: classifier_outcome.splits sum.splits)

text \<open>
  C3. Whatever the message text: if the classifier call raises, or parsing its response
  raises, or the score computation on the parsed response raises (not a dict, a missing
  sub-score, a sub-score that is not a number), then \<open>analyze_message\<close> (whose
  DataManager is set) raises nothing and returns the default result: all three sub-scores
  0, \<open>violation_score\<close> 0, \<open>violation\<close> false, the analysis-error reason. The
  exception is logged and the store is left as it was.
\<close>

theorem analyze_message_fail_open:
  assumes "analyzer_dm st"
    and "classifier e = CallFails \<or> classifier e = ParseFails
         \<or> (\<exists>parsed ex. classifier e = Parsed parsed \<and> score_response (settings st) parsed = Inl ex)"
  shows "fst (analyze_message e txt st) = Inr analysis_error_result
       \<and> analysis_error_result =
           [(''spam'', JNum 0), (''toxic'', JNum 0), (''danger'', JNum 0),
            (''violation_score'', JNum 0), (''violation'', JBool False),
            (''reason'', JStr ''analysis error'')]
       \<and> (\<exists>ex. snd (analyze_message e txt st) =
             st\<lparr>trace := trace st @ [Log Info (AnalyzingMessage (sensitivity (settings st))),
                                     ClassifierCall txt, Log Error (AnalysisError ex)]\<rparr>)"
proof -
  from assms(2) obtain ex where raised: "fst (analyze_message_try e txt st) = Inl ex"
    by (auto simp: analyze_message_try_def Let_def emit_fields)
  then have "fst (analyze_message e txt st) = Inr analysis_error_result"
    using assms(1) by (cases "analyze_message_try e txt st") (simp add: analyze_message_def)
  moreover have "snd (analyze_message e txt st) =
      st\<lparr>trace := trace st @ [Log Info (AnalyzingMessage (sensitivity (settings st))),
                              ClassifierCall txt, Log Error (AnalysisError ex)]\<rparr>"
    using assms(1) raised by (simp add: analyze_message_trace)
  ultimately show ?thesis
    by (auto simp: analysis_error_result_def)
qed

theorem analyze_message_fail_open_witness:
  "fst (analyze_message (calm_env CallFails) ''hello'' example_state) = Inr analysis_error_result
   \<and> fst (analyze_message (calm_env (Parsed (JObj [(''spam'', JStr ''high'')]))) ''hello'' example_state)
       = Inr analysis_error_result
   \<and> getitem analysis_error_result ''violation'' = Inr (JBool False)"
proof -
  have dm: "analyzer_dm example_state"
    by (simp add: example_state_def)
  have a: "classifier (calm_env CallFails) = CallFails \<or> classifier (calm_env CallFails) = ParseFails
         \<or> (\<exists>parsed ex. classifier (calm_env CallFails) = Parsed parsed
               \<and> score_response (settings example_state) parsed = Inl ex)"
    by (simp add: calm_env_def)
  let ?e = "calm_env (Parsed (JObj [(''spam'', JStr ''high'')]))"
  have "score_response (settings example_state) (JObj [(''spam'', JStr ''high'')])
      = Inl (KeyError (Field ''toxic''))"
    by (simp add: score_response_def getitem_def bind_exn_def)
  then have b: "classifier ?e = CallFails \<or> classifier ?e = ParseFails
         \<or> (\<exists>parsed ex. classifier ?e = Parsed parsed
               \<and> score_response (settings example_state) parsed = Inl ex)"
    by (simp add: calm_env_def)
  have c: "getitem analysis_error_result ''violation'' = Inr (JBool False)"
    by (simp add: getitem_def analysis_error_result_def)
  show ?thesis
    using analyze_message_fail_open [OF dm a, of "''hello''", THEN conjunct1]
      analyze_message_fail_open [OF dm b, of "''hello''", THEN conjunct1] c
    by blast
qed

section \<open>Where the violation score comes from\<close>

lemma analyze_message_rescored:
  assumes "fst (analyze_message e txt st) = Inr r"
  shows "rescored r"
proof -
  from analyze_message_cases [OF assms] show ?thesis
  proof
    assume "r = analysis_error_result"
    then show ?thesis
      by (simp add: rescored_def sub_score_def analysis_error_result_def getitem_def bind_exn_def
          num_of_def calculate_violation_score_def)
  next
    assume "\<exists>parsed. classifier e = Parsed parsed \<and> score_response (settings st) parsed = Inr r"
    then obtain parsed where "score_response (settings st) parsed = Inr r"
      by blast
    from score_response_cases [OF this] show ?thesis
      by (auto simp: rescored_def sub_score_update getitem_update)
  qed
qed

lemma score_response_ignores_supplied:
  assumes "\<forall>k. k \<noteq> ''violation_score'' \<and> k \<noteq> ''violation'' \<longrightarrow> map_of d1 k = map_of d2 k"
  shows "map_sum id map_of (score_response cfg (JObj d1)) = map_sum id map_of (score_response cfg (JObj d2))"
proof -
  have g: "getitem d1 k = getitem d2 k" if "k \<noteq> ''violation_score''" "k \<noteq> ''violation''" for k
    using assms that by (simp add: getitem_def)
  have "map_of (AList.update ''violation'' v (AList.update ''violation_score'' w d1))
      = map_of (AList.update ''violation'' v (AList.update ''violation_score'' w d2))" for v w
    using assms by (auto simp: update_conv' fun_eq_iff)
  then show ?thesis
    by (simp add: score_response_def g bind_exn_def Let_def split: sum.splits)
qed

text \<open>
  C2, as stated, fails on the ban-word path: the fixed result of
  \<open>_create_ban_word_violation\<close> carries \<open>violation_score = 90\<close>, while the scorer gives
  100 for its sub-scores 90, 40 and 70.
\<close>

theorem ban_word_result_not_rescored: "\<not> rescored create_ban_word_violation"
  by (simp add: rescored_def sub_score_def create_ban_word_violation_def getitem_def bind_exn_def
      num_of_def calculate_violation_score_def)

lemma analyze_message_total:
  assumes "analyzer_dm st"
  shows "\<exists>r. fst (analyze_message e txt st) = Inr r"
  using assms
  by (auto simp: analyze_message_def split: prod.splits sum.splits)

lemma ban_word_scores:
  "getitem create_ban_word_violation ''violation_score'' = Inr (JNum 90)"
  "calculate_violation_score 90 40 70 = 100"
  by (simp_all add: create_ban_word_violation_def getitem_def calculate_violation_score_def)

text \<open>
  C2, amended. Every result that \<open>analyze_message\<close> returns (the classifier path, the
  fail-open default included) has as \<open>violation_score\<close> the scorer's value of its own
  sub-scores, and a \<open>violation_score\<close> or \<open>violation\<close> supplied by the classifier is
  overwritten: two responses that agree on every other key give the same result. The
  ban-word result is not rescored: it carries the fixed \<open>violation_score = 90\<close>, where
  the scorer would give 100.
\<close>

theorem classifier_results_rescored:
  assumes "analyzer_dm st"
  shows "(\<exists>r. fst (analyze_message e txt st) = Inr r \<and> rescored r)
       \<and> ((\<forall>k. k \<noteq> ''violation_score'' \<and> k \<noteq> ''violation'' \<longrightarrow> map_of d1 k = map_of d2 k)
            \<longrightarrow> map_sum id map_of (score_response cfg (JObj d1))
                 = map_sum id map_of (score_response cfg (JObj d2)))
       \<and> getitem create_ban_word_violation ''violation_score'' = Inr (JNum 90)
       \<and> calculate_violation_score 90 40 70 = 100"
proof -
  from analyze_message_total [OF assms] obtain r where r: "fst (analyze_message e txt st) = Inr r"
    by blast
  then have "rescored r"
    by (rule analyze_message_rescored)
  with r show ?thesis
    using score_response_ignores_supplied [of d1 d2 cfg] ban_word_scores by blast
qed

theorem classifier_results_rescored_witness:
  "(\<exists>r. fst (analyze_message (calm_env (Parsed (JObj example_response))) ''hello'' example_state) = Inr r
        \<and> rescored r)
   \<and> map_sum id map_of (score_response example_settings (JObj example_response))
     = map_sum id map_of (score_response example_settings (JObj bare_response))"
proof -
  have dm: "analyzer_dm example_state"
    by (simp add: example_state_def)
  have agree: "\<forall>k. k \<noteq> ''violation_score'' \<and> k \<noteq> ''violation''
      \<longrightarrow> map_of example_response k = map_of bare_response k"
    by (simp add: example_response_def bare_response_def)
  show ?thesis
    using classifier_results_rescored [OF dm,
        of "calm_env (Parsed (JObj example_response))" "''hello''"
           example_response bare_response example_settings]
      agree
    by blast
qed

section \<open>Handlers: normal form and frames\<close>

lemmas enforcement_defs =
  process_violation_def send_warning_def delete_violation_message_def ban_user_def
  and_then_def emit_def Let_def



lemma handle_message_from_not_bot:
  assumes "\<not> is_bot user"
  shows "handle_message_from e msg txt user st =
     (let st4 = count_message user (emit (Log Info (NewMessage (user_id user) (chat_id msg))) st)
      in and_then (if check_ban_words txt st then (Inr create_ban_word_violation, st4)
                   else analyze_message e txt st4) (\<lambda>violation st5.
         and_then (getitem violation ''violation'', st5) (\<lambda>v st6.
         and_then (if truthy v then process_violation e msg user violation st6
                   else (Inr (), st6)) (\<lambda>_ st7.
           (Inr (), save_data e st7)))))"
proof -
  let ?st1 = "emit (Log Info (NewMessage (user_id user) (chat_id msg))) st"
  have bw: "check_ban_words txt (count_message user ?st1) = check_ban_words txt st"
    by (simp add: check_ban_words_def count_message_def emit_def Let_def)
  show ?thesis
  proof (cases "users st (user_id user)")
    case None
    then have "and_then (update_user_stats (user_id user) (init_user_data user ?st1)) f
        = f () (count_message user ?st1\<lparr>stats := stats ?st1\<rparr>)" for f :: "unit \<Rightarrow> bot_state \<Rightarrow> (exn + unit) \<times> bot_state"
      by (simp add: update_user_stats_def init_user_data_def count_message_def and_then_def
          emit_def)
    with None assms show ?thesis
      unfolding handle_message_from_def Let_def
      by (simp add: emit_fields bw [unfolded Let_def] count_message_def check_ban_words_def)
  next
    case (Some r)
    then have "and_then (update_user_stats (user_id user) ?st1) f
        = f () (count_message user ?st1\<lparr>stats := stats ?st1\<rparr>)" for f :: "unit \<Rightarrow> bot_state \<Rightarrow> (exn + unit) \<times> bot_state"
      by (simp add: update_user_stats_def count_message_def and_then_def emit_def)
    with Some assms show ?thesis
      unfolding handle_message_from_def Let_def
      by (simp add: emit_fields bw [unfolded Let_def] count_message_def check_ban_words_def)
  qed
qed

lemma analyze_message_frame:
  "settings (snd (analyze_message e txt st)) = settings st"
  "users (snd (analyze_message e txt st)) = users st"
  "stats (snd (analyze_message e txt st)) = stats st"
  "analyzer_dm (snd (analyze_message e txt st)) = analyzer_dm st"
  by (auto simp: analyze_message_def analyze_message_try_def Let_def emit_def
      split: sum.splits classifier_outcome.splits)


lemma process_violation_stats:
  "violations_found (stats (snd (process_violation e msg user violation st)))
     = violations_found (stats st) + 1"
  "banned_users (stats (snd (process_violation e msg user violation st))) \<le> banned_users (stats st) + 1"
  "banned_users (stats st) \<le> banned_users (stats (snd (process_violation e msg user violation st)))"
  "deleted_messages (stats (snd (process_violation e msg user violation st))) \<le> deleted_messages (stats st) + 1"
  by (auto simp: enforcement_defs split: sum.splits option.splits)

lemma and_then_cases:
  "and_then m f = (case fst m of Inl ex \<Rightarrow> (Inl ex, snd m) | Inr v \<Rightarrow> f v (snd m))"
  by (cases m) (simp add: and_then_def split: sum.splits)

lemma save_data_frame:
  "settings (save_data e st) = settings st"
  "users (save_data e st) = users st"
  "stats (save_data e st) = stats st"
  "\<exists>evs. trace (save_data e st) = trace st @ SaveData # evs \<and> (\<forall>ev \<in> set evs. \<exists>l m. ev = Log l m)"
  by (auto simp: save_data_def emit_def Let_def)

lemma count_message_frame:
  "settings (count_message user st) = settings st"
  "trace (count_message user st) = trace st"
  "violations_found (stats (count_message user st)) = violations_found (stats st)"
  "banned_users (stats (count_message user st)) = banned_users (stats st)"
  "deleted_messages (stats (count_message user st)) = deleted_messages (stats st)"
  by (simp_all add: count_message_def Let_def)

text \<open>One update moves the two counters together: every ban is paid for by a violation.\<close>

lemma handle_message_from_stats:
  "banned_users (stats st) \<le> banned_users (stats (snd (handle_message_from e msg txt user st)))
   \<and> banned_users (stats (snd (handle_message_from e msg txt user st))) - banned_users (stats st)
     \<le> violations_found (stats (snd (handle_message_from e msg txt user st)))
        - violations_found (stats st)"
proof (cases "is_bot user")
  case True
  then show ?thesis
    by (simp add: handle_message_from_def Let_def emit_fields)
next
  case False
  let ?st4 = "count_message user (emit (Log Info (NewMessage (user_id user) (chat_id msg))) st)"
  let ?d = "if check_ban_words txt st then (Inr create_ban_word_violation, ?st4)
            else analyze_message e txt ?st4"
  have s4: "violations_found (stats ?st4) = violations_found (stats st)"
    "banned_users (stats ?st4) = banned_users (stats st)"
    by (simp_all add: count_message_frame emit_fields)
  have d: "stats (snd ?d) = stats ?st4"
    by (simp add: analyze_message_frame)
  show ?thesis
  proof (cases "fst ?d")
    case (Inl ex)
    then show ?thesis
      using False s4 d by (simp add: handle_message_from_not_bot and_then_cases Let_def)
  next
    case (Inr violation)
    show ?thesis
    proof (cases "getitem violation ''violation''")
      case (Inl ex)
      then show ?thesis
        using False s4 d Inr by (simp add: handle_message_from_not_bot and_then_cases Let_def)
    next
      case v: (Inr v)
      show ?thesis
      proof (cases "truthy v")
        case False
        then show ?thesis
          using \<open>\<not> is_bot user\<close> s4 d Inr v
          by (simp add: handle_message_from_not_bot and_then_cases Let_def save_data_frame)
      next
        case True
        let ?p = "process_violation e msg user violation (snd ?d)"
        have p: "violations_found (stats (snd ?p)) = violations_found (stats st) + 1"
          "banned_users (stats (snd ?p)) \<le> banned_users (stats st) + 1"
          "banned_users (stats st) \<le> banned_users (stats (snd ?p))"
          using process_violation_stats [where e = e and msg = msg and user = user
              and violation = violation and st = "snd ?d"] d s4 by simp_all
        have "snd (handle_message_from e msg txt user st) = snd ?p
            \<or> snd (handle_message_from e msg txt user st) = save_data e (snd ?p)"
          using \<open>\<not> is_bot user\<close> Inr v True
          by (cases "fst ?p") (simp_all add: handle_message_from_not_bot and_then_cases Let_def)
        then show ?thesis
          using p by (auto simp: save_data_frame)
      qed
    qed
  qed
qed

lemma handle_message_text:
  assumes "message upd = Some msg" and "msg_text msg = Some txt" and "txt \<noteq> []"
    and "from_user msg = Some user"
  shows "handle_message e upd st =
     (case fst (handle_message_from e msg txt user st) of
        Inr u \<Rightarrow> handle_message_from e msg txt user st
      | Inl ex \<Rightarrow>
          (if reply_ok e then Inr () else Inl (TelegramError ReplyCall),
           (snd (handle_message_from e msg txt user st))
             \<lparr>trace := trace (snd (handle_message_from e msg txt user st))
                @ [Log Error (HandleMessageError ex),
                   ReplyText (chat_id msg) (message_id msg) ProcessingErrorNotice]\<rparr>))"
  using assms
  by (cases "handle_message_from e msg txt user st")
     (simp add: handle_message_def handle_message_try_def emit_def Let_def split: sum.splits)

lemma handle_message_stats:
  "banned_users (stats st) \<le> banned_users (stats (snd (handle_message e upd st)))
   \<and> banned_users (stats (snd (handle_message e upd st))) - banned_users (stats st)
     \<le> violations_found (stats (snd (handle_message e upd st))) - violations_found (stats st)"
proof (cases "\<exists>msg txt user. message upd = Some msg \<and> msg_text msg = Some txt \<and> txt \<noteq> []
    \<and> from_user msg = Some user")
  case True
  then obtain msg tx user where m: "message upd = Some msg" "msg_text msg = Some tx" "tx \<noteq> []"
    "from_user msg = Some user"
    by blast
  show ?thesis
    using handle_message_from_stats [of st e msg tx user]
    by (simp add: handle_message_text [OF m] split: sum.splits)
next
  case False
  then have "stats (snd (handle_message e upd st)) = stats st"
    by (auto simp: handle_message_def handle_message_try_def emit_def Let_def
        split: option.splits)
  then show ?thesis
    by simp
qed

lemma handle_messages_invariant:
  assumes "banned_users (stats st) \<le> violations_found (stats st)"
  shows "banned_users (stats (handle_messages ms st)) \<le> violations_found (stats (handle_messages ms st))"
  using assms
proof (induction ms arbitrary: st)
  case Nil
  then show ?case by simp
next
  case (Cons m ms)
  obtain e upd where m: "m = (e, upd)"
    by (cases m)
  have "banned_users (stats (snd (handle_message e upd st)))
      \<le> violations_found (stats (snd (handle_message e upd st)))"
    using handle_message_stats [of st e upd] Cons.prems by linarith
  then show ?case
    unfolding m by (simp add: Cons.IH)
qed

lemma spam_scenario_stats:
  "stats (handle_messages spam_updates example_state) =
     \<lparr>messages_checked = 2, violations_found = 2, deleted_messages = 2, banned_users = 1\<rparr>"
  by code_simp

section \<open>Statistics\<close>

text \<open>
  C9. In every state reached from zeroed statistics by handling any sequence of
  updates (whatever the classifier and the platform answer to each),
  \<open>violations_found \<ge> banned_users\<close>: \<open>banned_users\<close> is incremented only by
  \<open>_ban_user\<close>, which only \<open>_process_violation\<close> calls, after it has incremented
  \<open>violations_found\<close>.
\<close>

theorem violations_cover_bans:
  assumes "stats st =
     \<lparr>messages_checked = 0, violations_found = 0, deleted_messages = 0, banned_users = 0\<rparr>"
  shows "violations_found (stats (handle_messages ms st)) \<ge> banned_users (stats (handle_messages ms st))"
proof -
  have "banned_users (stats st) \<le> violations_found (stats st)"
    by (simp add: assms)
  then show ?thesis
    by (rule handle_messages_invariant)
qed

theorem violations_cover_bans_witness:
  "stats example_state =
     \<lparr>messages_checked = 0, violations_found = 0, deleted_messages = 0, banned_users = 0\<rparr>
   \<and> banned_users (stats (handle_messages spam_updates example_state)) = 1
   \<and> violations_found (stats (handle_messages spam_updates example_state))
       \<ge> banned_users (stats (handle_messages spam_updates example_state))"
proof -
  have z: "stats example_state =
     \<lparr>messages_checked = 0, violations_found = 0, deleted_messages = 0, banned_users = 0\<rparr>"
    by (simp add: example_state_def)
  show ?thesis
    using violations_cover_bans [OF z, of spam_updates] z
    by (simp add: spam_scenario_stats)
qed

section \<open>Updates without text\<close>

text \<open>
  C10. For an update that carries no message, or whose message has no text (none, or
  the empty string), \<open>handle_message\<close> returns at once and the state is the one it was
  given: no user record is created or changed, no counter moves, and the trace gains
  no event, so the classifier is not called, nothing is logged or sent and
  \<open>save_data\<close> is not called. The rule filter, a pure function of the text and the
  settings, has nothing to act on: the result is the same for every ban-word list.
\<close>

theorem handle_message_ignores_textless:
  assumes "message upd = None
         \<or> (\<exists>msg. message upd = Some msg \<and> (msg_text msg = None \<or> msg_text msg = Some []))"
  shows "handle_message e upd st = (Inr (), st)"
  using assms
  by (auto simp: handle_message_def handle_message_try_def)

theorem handle_message_ignores_textless_witness:
  "handle_message (calm_env CallFails) \<lparr>message = None\<rparr> example_state = (Inr (), example_state)
   \<and> handle_message (calm_env CallFails)
        \<lparr>message = Some ((example_message [])\<lparr>msg_text := None\<rparr>)\<rparr> example_state
       = (Inr (), example_state)
   \<and> handle_message (calm_env CallFails) \<lparr>message = Some (example_message [])\<rparr> example_state
       = (Inr (), example_state)"
proof -
  have a: "message \<lparr>message = None\<rparr> = None
         \<or> (\<exists>msg. message \<lparr>message = None\<rparr> = Some msg
               \<and> (msg_text msg = None \<or> msg_text msg = Some []))"
    by simp
  let ?u = "\<lparr>message = Some ((example_message [])\<lparr>msg_text := None\<rparr>)\<rparr>"
  have b: "message ?u = None
         \<or> (\<exists>msg. message ?u = Some msg \<and> (msg_text msg = None \<or> msg_text msg = Some []))"
    by simp
  let ?v = "\<lparr>message = Some (example_message [])\<rparr>"
  have c: "message ?v = None
         \<or> (\<exists>msg. message ?v = Some msg \<and> (msg_text msg = None \<or> msg_text msg = Some []))"
    by (simp add: example_message_def)
  show ?thesis
    using handle_message_ignores_textless [OF a, of "calm_env CallFails" example_state]
      handle_message_ignores_textless [OF b, of "calm_env CallFails" example_state]
      handle_message_ignores_textless [OF c, of "calm_env CallFails" example_state]
    by blast
qed

section \<open>Traces of the handlers\<close>











section \<open>Failures of the ban step\<close>




section \<open>The enforcement engine\<close>

lemma process_violation_counts:
  assumes "users st (user_id user) = Some r"
  shows "violations_found (stats (snd (process_violation e msg user violation st)))
           = violations_found (stats st) + 1"
    and "users (snd (process_violation e msg user violation st))
           = (users st)(user_id user \<mapsto> r\<lparr>warnings := warnings r + 1\<rparr>)"
    and "settings (snd (process_violation e msg user violation st)) = settings st"
  using assms
  by (auto simp: enforcement_defs split: sum.splits)

lemma process_violation_delivered:
  assumes "users st (user_id user) = Some r"
    and "getitem violation ''reason'' = Inr reason"
    and "getitem violation ''violation_score'' = Inr score"
    and "getitem violation ''spam'' = Inr spam"
    and "getitem violation ''toxic'' = Inr toxic"
    and "getitem violation ''danger'' = Inr danger"
    and "send_warning_ok e"
    and "auto_delete (settings st) \<longrightarrow> delete_ok e \<or> edit_ok e"
  shows "\<exists>evs. new_events st (snd (process_violation e msg user violation st)) =
           SendMessage (chat_id msg)
             (WarningText reason score spam toxic danger (warnings r + 1) (warn_before_ban (settings st)))
             (Some (message_id msg)) # evs
         \<and> (BanChatMember (chat_id msg) (user_id user) \<in> set evs
              \<longleftrightarrow> warnings r + 1 \<ge> warn_before_ban (settings st))"
  using assms
  by (auto simp: enforcement_defs warning_text_def bind_exn_def new_events_def)

lemma process_violation_delete_failed:
  assumes "users st (user_id user) = Some r"
    and "getitem violation ''reason'' = Inr reason"
    and "getitem violation ''violation_score'' = Inr score"
    and "getitem violation ''spam'' = Inr spam"
    and "getitem violation ''toxic'' = Inr toxic"
    and "getitem violation ''danger'' = Inr danger"
    and "send_warning_ok e" and "auto_delete (settings st)" and "\<not> delete_ok e" and "edit_ok e"
  shows "\<exists>evs. new_events st (snd (process_violation e msg user violation st)) =
           [SendMessage (chat_id msg)
              (WarningText reason score spam toxic danger (warnings r + 1) (warn_before_ban (settings st)))
              (Some (message_id msg)),
            DeleteMessage (chat_id msg) (message_id msg),
            Log Error (DeleteFailed (TelegramError DeleteCall)),
            EditText (chat_id msg)
              (DeleteFailedNote
                (WarningText reason score spam toxic danger (warnings r + 1) (warn_before_ban (settings st))))]
           @ evs
         \<and> (BanChatMember (chat_id msg) (user_id user) \<in> set evs
              \<longleftrightarrow> warnings r + 1 \<ge> warn_before_ban (settings st))"
    and "deleted_messages (stats (snd (process_violation e msg user violation st)))
           = deleted_messages (stats st)"
  using assms
  by (auto simp: enforcement_defs warning_text_def bind_exn_def new_events_def)

lemma delete_violation_message_failed:
  assumes "\<not> delete_ok e"
  shows "delete_violation_message e msg warning_msg st =
     (if edit_ok e then Inr () else Inl (TelegramError EditCall),
      st\<lparr>trace := trace st @ [DeleteMessage (chat_id msg) (message_id msg),
                              Log Error (DeleteFailed (TelegramError DeleteCall)),
                              EditText (chat_id msg) (DeleteFailedNote warning_msg)]\<rparr>)"
  using assms by (simp add: delete_violation_message_def Let_def emit_def)

text \<open>
  C4, as stated, fails when the warning cannot be sent: the user of the example has one
  warning, \<open>warn_before_ban\<close> is 2, the send raises, and no ban is attempted although
  \<open>1 + 1 \<ge> 2\<close>.
\<close>

theorem no_ban_when_warning_fails:
  "map_option warnings (users warned_state 7) = Some 1
   \<and> warn_before_ban (settings warned_state) = 2
   \<and> BanChatMember 100 7 \<notin> set (new_events warned_state
        (snd (process_violation send_fails (example_message ''spam again'') example_user
               create_ban_word_violation warned_state)))"
  by code_simp

text \<open>
  C4, amended. For every violation handled by the enforcement engine for a user whose
  warning count is \<open>w\<close>: \<open>violations_found\<close> increases by exactly 1 and the user's
  \<open>warnings\<close> becomes \<open>w + 1\<close>, whatever happens afterwards. If the result carries a
  reason, a composite score and the three sub-scores, the warning send succeeds and
  the delete step does not raise (\<open>auto_delete\<close> is off, or the deletion succeeds, or
  the annotation of the warning succeeds), then the warning with the reason, the
  composite score, the sub-scores and the progress \<open>(w + 1)/warn_before_ban\<close> is sent
  first, as a reply to the offending message, and a ban is attempted if and only if
  \<open>w + 1 \<ge> warn_before_ban\<close>.
\<close>

theorem process_violation_warns_then_bans:
  assumes "users st (user_id user) = Some r"
  shows "violations_found (stats (snd (process_violation e msg user violation st)))
           = violations_found (stats st) + 1
       \<and> map_option warnings (users (snd (process_violation e msg user violation st)) (user_id user))
           = Some (warnings r + 1)
       \<and> (getitem violation ''reason'' = Inr reason
            \<and> getitem violation ''violation_score'' = Inr score
            \<and> getitem violation ''spam'' = Inr spam
            \<and> getitem violation ''toxic'' = Inr toxic
            \<and> getitem violation ''danger'' = Inr danger
            \<and> send_warning_ok e
            \<and> (auto_delete (settings st) \<longrightarrow> delete_ok e \<or> edit_ok e)
          \<longrightarrow> (\<exists>evs. new_events st (snd (process_violation e msg user violation st)) =
                  SendMessage (chat_id msg)
                    (WarningText reason score spam toxic danger (warnings r + 1)
                       (warn_before_ban (settings st)))
                    (Some (message_id msg)) # evs
                \<and> (BanChatMember (chat_id msg) (user_id user) \<in> set evs
                     \<longleftrightarrow> warnings r + 1 \<ge> warn_before_ban (settings st))))"
  using assms process_violation_counts [OF assms, of e msg violation]
    process_violation_delivered [OF assms, of violation reason score spam toxic danger e msg]
  by simp

lemma calm_run:
  "new_events warned_state
     (snd (process_violation (calm_env CallFails) (example_message ''spam again'') example_user
            create_ban_word_violation warned_state)) =
     [SendMessage 100
        (WarningText (JStr ''banned word'') (JNum 90) (JNum 90) (JNum 40) (JNum 70) 2 2) (Some 5),
      DeleteMessage 100 5,
      BanChatMember 100 7,
      SendMessage 100 (BanAnnouncement (Some ''u1'')) None]"
  by code_simp

theorem process_violation_warns_then_bans_witness:
  "violations_found (stats (snd (process_violation (calm_env CallFails)
       (example_message ''spam again'') example_user create_ban_word_violation warned_state))) = 1
   \<and> map_option warnings (users (snd (process_violation (calm_env CallFails)
       (example_message ''spam again'') example_user create_ban_word_violation warned_state)) 7) = Some 2
   \<and> (\<exists>evs. new_events warned_state (snd (process_violation (calm_env CallFails)
          (example_message ''spam again'') example_user create_ban_word_violation warned_state)) =
          SendMessage 100
            (WarningText (JStr ''banned word'') (JNum 90) (JNum 90) (JNum 40) (JNum 70) 2 2)
            (Some 5) # evs
        \<and> BanChatMember 100 7 \<in> set evs)"
proof -
  let ?r = "\<lparr>username = Some ''u1'', first_name = ''U'', last_name = None, warnings = 1, messages = 1\<rparr>"
  have u: "users warned_state (user_id example_user) = Some ?r"
    by (simp add: warned_state_def example_user_def)
  have k: "getitem create_ban_word_violation ''reason'' = Inr (JStr ''banned word'')
      \<and> getitem create_ban_word_violation ''violation_score'' = Inr (JNum 90)
      \<and> getitem create_ban_word_violation ''spam'' = Inr (JNum 90)
      \<and> getitem create_ban_word_violation ''toxic'' = Inr (JNum 40)
      \<and> getitem create_ban_word_violation ''danger'' = Inr (JNum 70)
      \<and> send_warning_ok (calm_env CallFails)
      \<and> (auto_delete (settings warned_state)
           \<longrightarrow> delete_ok (calm_env CallFails) \<or> edit_ok (calm_env CallFails))"
    by (simp add: create_ban_word_violation_def getitem_def calm_env_def)
  have s: "violations_found (stats warned_state) = 0" "warn_before_ban (settings warned_state) = 2"
    "user_id example_user = 7" "chat_id (example_message ''spam again'') = 100"
    "message_id (example_message ''spam again'') = 5"
    by (simp_all add: warned_state_def example_state_def example_settings_def example_user_def
        example_message_def)
  show ?thesis
    using process_violation_warns_then_bans [OF u, of "calm_env CallFails"
        "example_message ''spam again''" create_ban_word_violation
        "JStr ''banned word''" "JNum 90" "JNum 90" "JNum 40" "JNum 70"] k
    by (simp add: s)
qed

text \<open>
  C5, as stated, fails when the annotation of the warning fails too: the deletion and
  the edit both raise, the edit's exception leaves \<open>_process_violation\<close>, and the ban
  check does not run although the user has reached \<open>warn_before_ban\<close>.
\<close>

theorem no_ban_check_when_annotation_fails:
  "auto_delete (settings warned_state)
   \<and> \<not> delete_ok delete_and_edit_fail
   \<and> map_option warnings (users warned_state 7) = Some 1
   \<and> warn_before_ban (settings warned_state) = 2
   \<and> fst (process_violation delete_and_edit_fail (example_message ''spam again'') example_user
            create_ban_word_violation warned_state) = Inl (TelegramError EditCall)
   \<and> BanChatMember 100 7 \<notin> set (new_events warned_state
        (snd (process_violation delete_and_edit_fail (example_message ''spam again'') example_user
               create_ban_word_violation warned_state)))"
  by code_simp

text \<open>
  C5, amended. Whenever \<open>auto_delete\<close> is enabled and the deletion of the offending
  message fails: the failure is logged and is not propagated from the delete step,
  \<open>deleted_messages\<close> stays unchanged, and the edit that appends the deletion-failed
  note to the warning already sent is issued; the delete step raises only if that edit
  raises. If the edit succeeds, the ban check still runs in the same enforcement
  cycle: after the warning, the failed deletion, its log entry and the annotation, a
  ban is attempted if and only if the user's new warning count has reached
  \<open>warn_before_ban\<close>.
\<close>

theorem delete_failure_is_annotated:
  assumes "\<not> delete_ok e"
  shows "delete_violation_message e msg warning_msg st =
           (if edit_ok e then Inr () else Inl (TelegramError EditCall),
            st\<lparr>trace := trace st @ [DeleteMessage (chat_id msg) (message_id msg),
                                    Log Error (DeleteFailed (TelegramError DeleteCall)),
                                    EditText (chat_id msg) (DeleteFailedNote warning_msg)]\<rparr>)
       \<and> (edit_ok e \<and> auto_delete (settings st) \<and> send_warning_ok e
            \<and> users st (user_id user) = Some r
            \<and> getitem violation ''reason'' = Inr reason
            \<and> getitem violation ''violation_score'' = Inr score
            \<and> getitem violation ''spam'' = Inr spam
            \<and> getitem violation ''toxic'' = Inr toxic
            \<and> getitem violation ''danger'' = Inr danger
          \<longrightarrow> deleted_messages (stats (snd (process_violation e msg user violation st)))
                = deleted_messages (stats st)
              \<and> (\<exists>evs. new_events st (snd (process_violation e msg user violation st)) =
                    [SendMessage (chat_id msg)
                       (WarningText reason score spam toxic danger (warnings r + 1)
                          (warn_before_ban (settings st)))
                       (Some (message_id msg)),
                     DeleteMessage (chat_id msg) (message_id msg),
                     Log Error (DeleteFailed (TelegramError DeleteCall)),
                     EditText (chat_id msg)
                       (DeleteFailedNote
                         (WarningText reason score spam toxic danger (warnings r + 1)
                            (warn_before_ban (settings st))))]
                    @ evs
                  \<and> (BanChatMember (chat_id msg) (user_id user) \<in> set evs
                       \<longleftrightarrow> warnings r + 1 \<ge> warn_before_ban (settings st))))"
proof (intro conjI impI)
  show "delete_violation_message e msg warning_msg st =
           (if edit_ok e then Inr () else Inl (TelegramError EditCall),
            st\<lparr>trace := trace st @ [DeleteMessage (chat_id msg) (message_id msg),
                                    Log Error (DeleteFailed (TelegramError DeleteCall)),
                                    EditText (chat_id msg) (DeleteFailedNote warning_msg)]\<rparr>)"
    using assms by (rule delete_violation_message_failed)
next
  assume a: "edit_ok e \<and> auto_delete (settings st) \<and> send_warning_ok e
            \<and> users st (user_id user) = Some r
            \<and> getitem violation ''reason'' = Inr reason
            \<and> getitem violation ''violation_score'' = Inr score
            \<and> getitem violation ''spam'' = Inr spam
            \<and> getitem violation ''toxic'' = Inr toxic
            \<and> getitem violation ''danger'' = Inr danger"
  then show "deleted_messages (stats (snd (process_violation e msg user violation st)))
                = deleted_messages (stats st)"
    using assms process_violation_delete_failed(2)
      [of st user r violation reason score spam toxic danger e msg]
    by blast
  from a show "\<exists>evs. new_events st (snd (process_violation e msg user violation st)) =
                    [SendMessage (chat_id msg)
                       (WarningText reason score spam toxic danger (warnings r + 1)
                          (warn_before_ban (settings st)))
                       (Some (message_id msg)),
                     DeleteMessage (chat_id msg) (message_id msg),
                     Log Error (DeleteFailed (TelegramError DeleteCall)),
                     EditText (chat_id msg)
                       (DeleteFailedNote
                         (WarningText reason score spam toxic danger (warnings r + 1)
                            (warn_before_ban (settings st))))]
                    @ evs
                  \<and> (BanChatMember (chat_id msg) (user_id user) \<in> set evs
                       \<longleftrightarrow> warnings r + 1 \<ge> warn_before_ban (settings st))"
    using assms process_violation_delete_failed(1)
      [of st user r violation reason score spam toxic danger e msg]
    by blast
qed

theorem delete_failure_is_annotated_witness:
  "\<not> delete_ok delete_fails
   \<and> fst (delete_violation_message delete_fails (example_message ''spam again'')
            ProcessingErrorNotice warned_state) = Inr ()
   \<and> deleted_messages (stats (snd (process_violation delete_fails (example_message ''spam again'')
        example_user create_ban_word_violation warned_state))) = 0
   \<and> (\<exists>evs. new_events warned_state (snd (process_violation delete_fails
          (example_message ''spam again'') example_user create_ban_word_violation warned_state)) =
          [SendMessage 100
             (WarningText (JStr ''banned word'') (JNum 90) (JNum 90) (JNum 40) (JNum 70) 2 2)
             (Some 5),
           DeleteMessage 100 5,
           Log Error (DeleteFailed (TelegramError DeleteCall)),
           EditText 100 (DeleteFailedNote
             (WarningText (JStr ''banned word'') (JNum 90) (JNum 90) (JNum 40) (JNum 70) 2 2))]
          @ evs
        \<and> BanChatMember 100 7 \<in> set evs)"
proof -
  let ?r = "\<lparr>username = Some ''u1'', first_name = ''U'', last_name = None, warnings = 1, messages = 1\<rparr>"
  have d: "\<not> delete_ok delete_fails"
    by (simp add: delete_fails_def calm_env_def)
  have k: "edit_ok delete_fails \<and> auto_delete (settings warned_state) \<and> send_warning_ok delete_fails
      \<and> users warned_state (user_id example_user) = Some ?r
      \<and> getitem create_ban_word_violation ''reason'' = Inr (JStr ''banned word'')
      \<and> getitem create_ban_word_violation ''violation_score'' = Inr (JNum 90)
      \<and> getitem create_ban_word_violation ''spam'' = Inr (JNum 90)
      \<and> getitem create_ban_word_violation ''toxic'' = Inr (JNum 40)
      \<and> getitem create_ban_word_violation ''danger'' = Inr (JNum 70)"
    by (simp add: create_ban_word_violation_def getitem_def delete_fails_def calm_env_def
        warned_state_def example_state_def example_settings_def example_user_def)
  have s: "deleted_messages (stats warned_state) = 0" "warn_before_ban (settings warned_state) = 2"
    "user_id example_user = 7" "chat_id (example_message ''spam again'') = 100"
    "message_id (example_message ''spam again'') = 5" "edit_ok delete_fails"
    by (simp_all add: warned_state_def example_state_def example_settings_def example_user_def
        example_message_def delete_fails_def calm_env_def)
  note t = delete_failure_is_annotated [OF d, of "example_message ''spam again''" _ warned_state
        example_user ?r create_ban_word_violation
        "JStr ''banned word''" "JNum 90" "JNum 90" "JNum 40" "JNum 70"]
  have "fst (delete_violation_message delete_fails (example_message ''spam again'')
            ProcessingErrorNotice warned_state) = Inr ()"
    using t [of ProcessingErrorNotice, THEN conjunct1] by (simp add: s)
  moreover note t [of ProcessingErrorNotice, THEN conjunct2, rule_format, OF k]
  ultimately show ?thesis
    using d by (simp add: s)
qed

section \<open>The rule filter and its fixed result\<close>












section \<open>A classifier result without a reason\<close>

text \<open>The analysis accepts a response without \<open>reason\<close>; the f-string of the warning
  then raises \<open>KeyError\<close> after the counters were incremented: nothing is sent but the
  generic failure notice, and no ban is attempted although the user has reached
  \<open>warn_before_ban\<close>.\<close>

lemma missing_reason_run:
  "new_events warned_state
     (snd (handle_message (calm_env (Parsed (JObj no_reason_response)))
            \<lparr>message = Some (example_message ''buy now'')\<rparr> warned_state))
   = [Log Info (NewMessage 7 100), Log Info (AnalyzingMessage 50), ClassifierCall ''buy now'',
      Log Error (HandleMessageError (KeyError (Field ''reason''))),
      ReplyText 100 5 ProcessingErrorNotice]"
  "map_option warnings
     (users (snd (handle_message (calm_env (Parsed (JObj no_reason_response)))
                   \<lparr>message = Some (example_message ''buy now'')\<rparr> warned_state)) 7)
   = Some 2"
  by code_simp+

end
